theory Spec2Isabelle
  imports Main "HOL-Library.Word" "HOL-Library.Sublist"
begin

section \<open>Data model of \<open>wsio.c\<close>\<close>

text \<open>
  The websocket IO adapter keeps one \<open>WSIO_INSTANCE\<close> per connection and a list of
  \<open>PENDING_SOCKET_IO\<close> items, one per queued send. Function pointers are modelled
  as \<open>nat option\<close> (\<open>None\<close> is the NULL pointer, \<open>Some f\<close> names the callee), opaque
  \<open>void*\<close> contexts as \<open>nat\<close>, \<open>unsigned char\<close> as \<open>8 word\<close> and \<open>size_t\<close> as
  \<open>nat\<close>. The C return value \<open>__LINE__\<close> is the number of the source line.
\<close>

type_synonym fn_ptr = "nat option"
type_synonym ctx_ptr = nat
type_synonym byte = "8 word"

datatype IO_STATE =
    IO_STATE_NOT_OPEN
  | IO_STATE_OPENING
  | IO_STATE_OPEN
  | IO_STATE_CLOSING
  | IO_STATE_ERROR

datatype IO_SEND_RESULT = IO_SEND_OK | IO_SEND_ERROR | IO_SEND_CANCELLED

datatype IO_OPEN_RESULT = IO_OPEN_OK | IO_OPEN_ERROR | IO_OPEN_CANCELLED

text \<open>
  \<open>PENDING_SOCKET_IO\<close>: the field \<open>size\<close> is called \<open>size_bytes\<close> here (\<open>size\<close> is a
  HOL constant); the back pointer \<open>pending_io_list\<close> of an item is the list that holds
  it and is left out.
\<close>

record PENDING_SOCKET_IO =
  bytes :: "byte list"
  size_bytes :: nat
  on_send_complete :: fn_ptr
  callback_context :: ctx_ptr
  is_partially_sent :: bool

record lws_protocols =
  p_name :: "string option"
  p_callback :: fn_ptr
  p_id :: nat
  p_per_session_data_size :: nat
  p_rx_buffer_size :: nat
  p_user :: "nat option"

record WSIO_INSTANCE =
  on_bytes_received :: fn_ptr
  on_io_open_complete :: fn_ptr
  on_io_error :: fn_ptr
  logger_log :: fn_ptr
  open_callback_context :: ctx_ptr
  io_state :: IO_STATE
  pending_io_list :: "PENDING_SOCKET_IO list"
  ws_context :: "nat option"
  wsi :: "nat option"
  port :: int
  host :: string
  relative_path :: string
  protocol_name :: string
  trusted_ca :: "string option"
  protocols :: "lws_protocols list"
  use_ssl :: bool

text \<open>\<open>WSIO_CONFIG\<close> (declared in \<open>wsio.h\<close>); a \<open>char*\<close> that may be NULL is an option.\<close>

record WSIO_CONFIG =
  cfg_host :: "string option"
  cfg_port :: int
  cfg_protocol_name :: "string option"
  cfg_relative_path :: "string option"
  cfg_trusted_ca :: "string option"
  cfg_use_ssl :: bool

subsection \<open>Observable actions\<close>

text \<open>
  Everything the module does to the outside is recorded, in program order, as a list of
  actions: calls of the user's callbacks, calls into libwebsockets, and the allocator's
  successful allocations and the frees.
\<close>

datatype block =
    Instance_Block
  | List_Block
  | Host_Block
  | Relative_Path_Block
  | Protocol_Name_Block
  | Protocols_Block
  | Trusted_Ca_Block
  | Pending_Io_Block
  | Pending_Bytes_Block
  | Ws_Buffer_Block

datatype action =
    Send_Complete nat ctx_ptr IO_SEND_RESULT
  | Open_Complete nat ctx_ptr IO_OPEN_RESULT
  | Io_Error nat ctx_ptr
  | Bytes_Received nat ctx_ptr "byte list" nat
  | Close_Complete nat ctx_ptr
  | Log_Byte nat byte
  | Lws_Create_Context
  | Lws_Client_Connect "nat option" string int bool string string
  | Lws_Context_Destroy "nat option"
  | Lws_Write "nat option" "byte list" nat
  | Lws_Callback_On_Writable "nat option"
  | Lws_Service "nat option"
  | Load_Extra_Certs string
  | Amqpalloc_Malloc block
  | Amqpalloc_Free block
  | List_Create
  | List_Destroy

datatype fault = Null_Function_Call | Null_Dereference

subsection \<open>The list utility\<close>

text \<open>
  Modelled from the spec: \<open>list.c\<close> (\<open>list_add\<close>, \<open>list_get_head_item\<close>,
  \<open>list_item_get_value\<close>, \<open>list_remove\<close>) is not among the sources. The spec calls
  it an ordered sequence to whose tail a send appends and whose head the dispatcher
  takes. An item handle is the position of the item; \<open>list_add\<close> may fail for lack
  of memory (the flag), \<open>list_remove\<close> fails exactly when the handle is not in the list.
\<close>

definition list_add :: "bool \<Rightarrow> 'a list \<Rightarrow> 'a \<Rightarrow> ('a list) option" where
  "list_add ok xs x = (if ok then Some (xs @ [x]) else None)"

definition list_get_head_item :: "'a list \<Rightarrow> nat option" where
  "list_get_head_item xs = (case xs of [] \<Rightarrow> None | x # r \<Rightarrow> Some 0)"

definition list_item_get_value :: "'a list \<Rightarrow> nat \<Rightarrow> 'a option" where
  "list_item_get_value xs i = (if i < length xs then Some (xs ! i) else None)"

definition list_remove :: "'a list \<Rightarrow> nat \<Rightarrow> int \<times> 'a list" where
  "list_remove xs i = (if i < length xs then (0, take i xs @ drop (Suc i) xs) else (1, xs))"

section \<open>The functions of \<open>wsio.c\<close>\<close>

definition indicate_error :: "WSIO_INSTANCE \<Rightarrow> action list" where
  "indicate_error ws_io_instance =
     (case on_io_error ws_io_instance of
        None \<Rightarrow> []
      | Some f \<Rightarrow> [Io_Error f (open_callback_context ws_io_instance)])"

definition indicate_open_complete :: "WSIO_INSTANCE \<Rightarrow> IO_OPEN_RESULT \<Rightarrow> action list" where
  "indicate_open_complete ws_io_instance open_result =
     (case on_io_open_complete ws_io_instance of
        None \<Rightarrow> []
      | Some f \<Rightarrow> [Open_Complete f (open_callback_context ws_io_instance) open_result])"

text \<open>
  The call \<open>pending_socket_io->on_send_complete(callback_context, result)\<close> behind its
  NULL check, as it stands at each of its four places.
\<close>

definition call_on_send_complete :: "PENDING_SOCKET_IO \<Rightarrow> IO_SEND_RESULT \<Rightarrow> action list" where
  "call_on_send_complete pending_socket_io send_result =
     (case on_send_complete pending_socket_io of
        None \<Rightarrow> []
      | Some f \<Rightarrow> [Send_Complete f (callback_context pending_socket_io) send_result])"

text \<open>
  What the environment answers during \<open>wsio_send\<close>: whether the two allocations of
  \<open>add_pending_io\<close> and \<open>list_add\<close> succeed, and the result of
  \<open>lws_callback_on_writable\<close>.
\<close>

record send_env =
  pending_io_malloc_ok :: bool
  bytes_malloc_ok :: bool
  list_add_ok :: bool
  on_writable_rc :: int

text \<open>
  \<open>memcpy (bytes, buffer, size)\<close> copies the first \<open>size\<close> bytes of the caller's
  buffer, which by the contract of \<open>wsio_send\<close> holds at least \<open>size\<close> bytes.
\<close>

definition add_pending_io ::
  "send_env \<Rightarrow> WSIO_INSTANCE \<Rightarrow> byte list \<Rightarrow> nat \<Rightarrow> fn_ptr \<Rightarrow> ctx_ptr
     \<Rightarrow> int \<times> WSIO_INSTANCE \<times> action list" where
  "add_pending_io env ws_io_instance buffer size' on_send_complete' callback_context' =
     (if pending_io_malloc_ok env then
        (if bytes_malloc_ok env then
           (case list_add (list_add_ok env) (pending_io_list ws_io_instance)
                   \<lparr> bytes = take size' buffer, size_bytes = size',
                     on_send_complete = on_send_complete',
                     callback_context = callback_context',
                     is_partially_sent = False \<rparr> of
              None \<Rightarrow>
                (108, ws_io_instance,
                 [Amqpalloc_Malloc Pending_Io_Block, Amqpalloc_Malloc Pending_Bytes_Block,
                  Amqpalloc_Free Pending_Bytes_Block, Amqpalloc_Free Pending_Io_Block])
            | Some l \<Rightarrow>
                (0, ws_io_instance \<lparr> pending_io_list := l \<rparr>,
                 [Amqpalloc_Malloc Pending_Io_Block, Amqpalloc_Malloc Pending_Bytes_Block]))
         else
           (91, ws_io_instance,
            [Amqpalloc_Malloc Pending_Io_Block, Amqpalloc_Free Pending_Io_Block]))
      else (82, ws_io_instance, []))"

definition remove_pending_io ::
  "WSIO_INSTANCE \<Rightarrow> nat \<Rightarrow> PENDING_SOCKET_IO \<Rightarrow> WSIO_INSTANCE \<times> action list" where
  "remove_pending_io wsio_instance item_handle pending_socket_io =
     (case list_remove (pending_io_list wsio_instance) item_handle of
        (rc, l) \<Rightarrow>
          (if rc = 0 then
             (wsio_instance \<lparr> pending_io_list := l \<rparr>,
              [Amqpalloc_Free Pending_Bytes_Block, Amqpalloc_Free Pending_Io_Block])
           else
             (wsio_instance \<lparr> pending_io_list := l, io_state := IO_STATE_ERROR \<rparr>,
              [Amqpalloc_Free Pending_Bytes_Block, Amqpalloc_Free Pending_Io_Block]
              @ indicate_error (wsio_instance \<lparr> pending_io_list := l, io_state := IO_STATE_ERROR \<rparr>))))"

text \<open>
  \<open>wsio_send\<close>. The handle and the buffer may be NULL (\<open>None\<close>). With a logger set, every
  byte of the buffer is logged before the data is queued.
\<close>

definition wsio_send ::
  "send_env \<Rightarrow> WSIO_INSTANCE option \<Rightarrow> byte list option \<Rightarrow> nat \<Rightarrow> fn_ptr \<Rightarrow> ctx_ptr
     \<Rightarrow> int \<times> WSIO_INSTANCE option \<times> action list" where
  "wsio_send env ws_io buffer size' on_send_complete' callback_context' =
     (case ws_io of
        None \<Rightarrow> (711, None, [])
      | Some wsio_instance \<Rightarrow>
          (case buffer of
             None \<Rightarrow> (711, Some wsio_instance, [])
           | Some buf \<Rightarrow>
               (if size' = 0 then (711, Some wsio_instance, [])
                else if io_state wsio_instance = IO_STATE_OPEN then
                  (case add_pending_io env wsio_instance buf size'
                          on_send_complete' callback_context' of
                     (rc, inst, acts) \<Rightarrow>
                       (if rc = 0 then
                          (if on_writable_rc env < 0 then
                             (744, Some inst,
                              (case logger_log wsio_instance of
                                 None \<Rightarrow> []
                               | Some lg \<Rightarrow> map (Log_Byte lg) (take size' buf))
                              @ acts @ [Lws_Callback_On_Writable (wsi inst)])
                           else
                             (0, Some inst,
                              (case logger_log wsio_instance of
                                 None \<Rightarrow> []
                               | Some lg \<Rightarrow> map (Log_Byte lg) (take size' buf))
                              @ acts @ [Lws_Callback_On_Writable (wsi inst)]))
                        else
                          (736, Some inst,
                           (case logger_log wsio_instance of
                              None \<Rightarrow> []
                            | Some lg \<Rightarrow> map (Log_Byte lg) (take size' buf))
                           @ acts)))
                else (720, Some wsio_instance, []))))"

subsection \<open>The libwebsockets callback\<close>

datatype lws_callback_reasons =
    LWS_CALLBACK_CLIENT_ESTABLISHED
  | LWS_CALLBACK_CLIENT_CONNECTION_ERROR
  | LWS_CALLBACK_CLIENT_WRITEABLE
  | LWS_CALLBACK_CLIENT_RECEIVE
  | LWS_CALLBACK_OPENSSL_LOAD_EXTRA_CLIENT_VERIFY_CERTS
  | LWS_CALLBACK_OTHER

text \<open>
  What the environment answers during one call of \<open>on_ws_callback\<close>: whether the
  allocation of the padded \<open>ws_buffer\<close> succeeds, what \<open>lws_write\<close> returns, and whether
  \<open>BIO_new\<close> succeeds.
\<close>

record callback_env =
  ws_buffer_malloc_ok :: bool
  lws_write_rc :: int
  bio_new_ok :: bool

text \<open>
  \<open>memmove (bytes, bytes + n, cnt)\<close>: the first \<open>cnt\<close> bytes become those that stood
  at offset \<open>n\<close>; the bytes behind them stay as they were.
\<close>

definition memmove_bytes :: "byte list \<Rightarrow> nat \<Rightarrow> nat \<Rightarrow> byte list" where
  "memmove_bytes b n cnt = take cnt (drop n b) @ drop cnt b"

text \<open>
  The statements of lines 216 to 227, which lines 239 to 250 repeat: the send of the head
  item failed.
\<close>

definition send_failed ::
  "WSIO_INSTANCE \<Rightarrow> nat \<Rightarrow> PENDING_SOCKET_IO \<Rightarrow> WSIO_INSTANCE \<times> action list" where
  "send_failed wsio_instance first_pending_io pending_socket_io =
     (if is_partially_sent pending_socket_io then
        (case remove_pending_io (wsio_instance \<lparr> io_state := IO_STATE_ERROR \<rparr>)
                first_pending_io pending_socket_io of
           (inst, acts) \<Rightarrow>
             (inst, call_on_send_complete pending_socket_io IO_SEND_ERROR
                    @ indicate_error wsio_instance @ acts))
      else
        (case remove_pending_io wsio_instance first_pending_io pending_socket_io of
           (inst, acts) \<Rightarrow>
             (inst, call_on_send_complete pending_socket_io IO_SEND_ERROR @ acts)))"

text \<open>
  Lines 212 to 280: the head item is handed to \<open>lws_write\<close>. Lines 269 to 275 are the
  body of \<open>remove_pending_io\<close> once more.
\<close>

definition send_head ::
  "callback_env \<Rightarrow> WSIO_INSTANCE \<Rightarrow> nat \<Rightarrow> PENDING_SOCKET_IO \<Rightarrow> WSIO_INSTANCE \<times> action list" where
  "send_head env wsio_instance first_pending_io pending_socket_io =
     (if ws_buffer_malloc_ok env then
        (if lws_write_rc env < 0 then
           (case send_failed wsio_instance first_pending_io pending_socket_io of
              (inst, acts) \<Rightarrow>
                (inst,
                 [Amqpalloc_Malloc Ws_Buffer_Block,
                  Lws_Write (wsi wsio_instance)
                    (take (size_bytes pending_socket_io) (bytes pending_socket_io))
                    (size_bytes pending_socket_io)]
                 @ acts @ [Amqpalloc_Free Ws_Buffer_Block]))
         else if nat (lws_write_rc env) < size_bytes pending_socket_io then
           (wsio_instance \<lparr> pending_io_list :=
              (pending_io_list wsio_instance)
                [first_pending_io := pending_socket_io \<lparr> bytes :=
                   memmove_bytes (bytes pending_socket_io) (nat (lws_write_rc env))
                     (size_bytes pending_socket_io - nat (lws_write_rc env)) \<rparr>] \<rparr>,
            [Amqpalloc_Malloc Ws_Buffer_Block,
             Lws_Write (wsi wsio_instance)
               (take (size_bytes pending_socket_io) (bytes pending_socket_io))
               (size_bytes pending_socket_io),
             Amqpalloc_Free Ws_Buffer_Block])
         else
           (case remove_pending_io wsio_instance first_pending_io pending_socket_io of
              (inst, acts) \<Rightarrow>
                (inst,
                 [Amqpalloc_Malloc Ws_Buffer_Block,
                  Lws_Write (wsi wsio_instance)
                    (take (size_bytes pending_socket_io) (bytes pending_socket_io))
                    (size_bytes pending_socket_io)]
                 @ call_on_send_complete pending_socket_io IO_SEND_OK
                 @ acts @ [Amqpalloc_Free Ws_Buffer_Block])))
      else send_failed wsio_instance first_pending_io pending_socket_io)"

text \<open>The case \<open>LWS_CALLBACK_CLIENT_WRITEABLE\<close>, lines 191 to 290.\<close>

definition on_writeable :: "callback_env \<Rightarrow> WSIO_INSTANCE \<Rightarrow> WSIO_INSTANCE \<times> action list" where
  "on_writeable env wsio_instance =
     (case list_get_head_item (pending_io_list wsio_instance) of
        None \<Rightarrow> (wsio_instance, [])
      | Some first_pending_io \<Rightarrow>
          (case list_item_get_value (pending_io_list wsio_instance) first_pending_io of
             None \<Rightarrow>
               (wsio_instance \<lparr> io_state := IO_STATE_ERROR \<rparr>, indicate_error wsio_instance)
           | Some pending_socket_io \<Rightarrow>
               (case send_head env wsio_instance first_pending_io pending_socket_io of
                  (inst, acts) \<Rightarrow>
                    (inst,
                     acts @
                     (case list_get_head_item (pending_io_list inst) of
                        None \<Rightarrow> []
                      | Some h \<Rightarrow> [Lws_Callback_On_Writable (wsi inst)])))))"

text \<open>
  \<open>on_ws_callback\<close>. The instance is the user pointer of the context of \<open>wsi\<close>; the
  arguments \<open>in\<close> and \<open>len\<close> are the payload and its length. The receive case calls
  \<open>on_bytes_received\<close> without a NULL check, and the certificate case takes
  \<open>strlen (trusted_ca)\<close> without one; the OpenSSL calls of that case, which touch no
  field of the instance, are summed up in one action. The function returns 0.
\<close>

definition on_ws_callback ::
  "callback_env \<Rightarrow> WSIO_INSTANCE \<Rightarrow> lws_callback_reasons \<Rightarrow> byte list \<Rightarrow> nat
     \<Rightarrow> fault + (int \<times> WSIO_INSTANCE \<times> action list)" where
  "on_ws_callback env wsio_instance reason in' len =
     (case reason of
        LWS_CALLBACK_CLIENT_ESTABLISHED \<Rightarrow>
          (if io_state wsio_instance = IO_STATE_OPENING then
             Inr (0, wsio_instance \<lparr> io_state := IO_STATE_OPEN \<rparr>,
                  indicate_open_complete wsio_instance IO_OPEN_OK)
           else Inr (0, wsio_instance, indicate_error wsio_instance))
      | LWS_CALLBACK_CLIENT_CONNECTION_ERROR \<Rightarrow>
          (if io_state wsio_instance = IO_STATE_OPENING then
             Inr (0, wsio_instance \<lparr> io_state := IO_STATE_NOT_OPEN \<rparr>,
                  indicate_open_complete wsio_instance IO_OPEN_ERROR
                  @ [Lws_Context_Destroy (ws_context wsio_instance)])
           else Inr (0, wsio_instance, indicate_error wsio_instance))
      | LWS_CALLBACK_CLIENT_WRITEABLE \<Rightarrow>
          (case on_writeable env wsio_instance of
             (inst, acts) \<Rightarrow> Inr (0, inst, acts))
      | LWS_CALLBACK_CLIENT_RECEIVE \<Rightarrow>
          (case on_bytes_received wsio_instance of
             None \<Rightarrow> Inl Null_Function_Call
           | Some f \<Rightarrow>
               Inr (0, wsio_instance,
                    [Bytes_Received f (open_callback_context wsio_instance) in' len]))
      | LWS_CALLBACK_OPENSSL_LOAD_EXTRA_CLIENT_VERIFY_CERTS \<Rightarrow>
          (if bio_new_ok env then
             (case trusted_ca wsio_instance of
                None \<Rightarrow> Inl Null_Dereference
              | Some ca \<Rightarrow> Inr (0, wsio_instance, [Load_Extra_Certs ca]))
           else Inr (0, wsio_instance, []))
      | LWS_CALLBACK_OTHER \<Rightarrow> Inr (0, wsio_instance, []))"

subsection \<open>Create, destroy, open, close, dowork\<close>

text \<open>
  \<open>wsio_create\<close>. The argument \<open>alloc_ok\<close> says, for each block the function asks for,
  whether the allocator (or \<open>list_create\<close>) delivers it. Entry 0 of the protocol table
  points to \<open>on_ws_callback\<close> (function 0) and carries the copied protocol name.
\<close>

definition wsio_create ::
  "(block \<Rightarrow> bool) \<Rightarrow> WSIO_CONFIG option \<Rightarrow> fn_ptr \<Rightarrow> WSIO_INSTANCE option \<times> action list" where
  "wsio_create alloc_ok io_create_parameters logger_log' =
     (case io_create_parameters of
        None \<Rightarrow> (None, [])
      | Some ws_io_config \<Rightarrow>
     (case cfg_host ws_io_config of
        None \<Rightarrow> (None, [])
      | Some h \<Rightarrow>
     (case cfg_protocol_name ws_io_config of
        None \<Rightarrow> (None, [])
      | Some pn \<Rightarrow>
     (case cfg_relative_path ws_io_config of
        None \<Rightarrow> (None, [])
      | Some rp \<Rightarrow>
     (if alloc_ok Instance_Block then
     (if alloc_ok List_Block then
     (if alloc_ok Host_Block then
     (if alloc_ok Relative_Path_Block then
     (if alloc_ok Protocol_Name_Block then
     (if alloc_ok Protocols_Block then
        (case cfg_trusted_ca ws_io_config of
           None \<Rightarrow>
             (Some \<lparr> on_bytes_received = None, on_io_open_complete = None,
                     on_io_error = None, logger_log = logger_log',
                     open_callback_context = 0, io_state = IO_STATE_NOT_OPEN,
                     pending_io_list = [], ws_context = None, wsi = None,
                     port = cfg_port ws_io_config, host = h, relative_path = rp,
                     protocol_name = pn, trusted_ca = None,
                     protocols =
                       [\<lparr> p_name = Some pn, p_callback = Some 0, p_id = 0,
                          p_per_session_data_size = 0, p_rx_buffer_size = 0,
                          p_user = None \<rparr>,
                        \<lparr> p_name = None, p_callback = None, p_id = 0,
                          p_per_session_data_size = 0, p_rx_buffer_size = 0,
                          p_user = None \<rparr>],
                     use_ssl = cfg_use_ssl ws_io_config \<rparr>,
              [Amqpalloc_Malloc Instance_Block, List_Create, Amqpalloc_Malloc Host_Block,
               Amqpalloc_Malloc Relative_Path_Block, Amqpalloc_Malloc Protocol_Name_Block,
               Amqpalloc_Malloc Protocols_Block])
         | Some ca \<Rightarrow>
             (if alloc_ok Trusted_Ca_Block then
                (Some \<lparr> on_bytes_received = None, on_io_open_complete = None,
                        on_io_error = None, logger_log = logger_log',
                        open_callback_context = 0, io_state = IO_STATE_NOT_OPEN,
                        pending_io_list = [], ws_context = None, wsi = None,
                        port = cfg_port ws_io_config, host = h, relative_path = rp,
                        protocol_name = pn, trusted_ca = Some ca,
                        protocols =
                          [\<lparr> p_name = Some pn, p_callback = Some 0, p_id = 0,
                             p_per_session_data_size = 0, p_rx_buffer_size = 0,
                             p_user = None \<rparr>,
                           \<lparr> p_name = None, p_callback = None, p_id = 0,
                             p_per_session_data_size = 0, p_rx_buffer_size = 0,
                             p_user = None \<rparr>],
                        use_ssl = cfg_use_ssl ws_io_config \<rparr>,
                 [Amqpalloc_Malloc Instance_Block, List_Create, Amqpalloc_Malloc Host_Block,
                  Amqpalloc_Malloc Relative_Path_Block, Amqpalloc_Malloc Protocol_Name_Block,
                  Amqpalloc_Malloc Protocols_Block, Amqpalloc_Malloc Trusted_Ca_Block])
              else
                (None,
                 [Amqpalloc_Malloc Instance_Block, List_Create, Amqpalloc_Malloc Host_Block,
                  Amqpalloc_Malloc Relative_Path_Block, Amqpalloc_Malloc Protocol_Name_Block,
                  Amqpalloc_Malloc Protocols_Block,
                  Amqpalloc_Free Protocols_Block, Amqpalloc_Free Protocol_Name_Block,
                  Amqpalloc_Free Relative_Path_Block, Amqpalloc_Free Host_Block,
                  List_Destroy, Amqpalloc_Free Instance_Block])))
      else
        (None,
         [Amqpalloc_Malloc Instance_Block, List_Create, Amqpalloc_Malloc Host_Block,
          Amqpalloc_Malloc Relative_Path_Block, Amqpalloc_Malloc Protocol_Name_Block,
          Amqpalloc_Free Relative_Path_Block, Amqpalloc_Free Protocol_Name_Block,
          Amqpalloc_Free Host_Block, List_Destroy, Amqpalloc_Free Instance_Block]))
      else
        (None,
         [Amqpalloc_Malloc Instance_Block, List_Create, Amqpalloc_Malloc Host_Block,
          Amqpalloc_Malloc Relative_Path_Block,
          Amqpalloc_Free Relative_Path_Block, Amqpalloc_Free Host_Block,
          List_Destroy, Amqpalloc_Free Instance_Block]))
      else
        (None,
         [Amqpalloc_Malloc Instance_Block, List_Create, Amqpalloc_Malloc Host_Block,
          Amqpalloc_Free Host_Block, List_Destroy, Amqpalloc_Free Instance_Block]))
      else
        (None,
         [Amqpalloc_Malloc Instance_Block, List_Create,
          List_Destroy, Amqpalloc_Free Instance_Block]))
      else (None, [Amqpalloc_Malloc Instance_Block, Amqpalloc_Free Instance_Block]))
      else (None, []))))))"

text \<open>
  What the environment answers during \<open>wsio_open\<close>: the results of
  \<open>lws_create_context\<close> and of \<open>lws_client_connect\<close> (\<open>None\<close> is NULL).
\<close>

record open_env =
  create_context_result :: "nat option"
  client_connect_result :: "nat option"

definition wsio_open ::
  "open_env \<Rightarrow> WSIO_INSTANCE option \<Rightarrow> fn_ptr \<Rightarrow> fn_ptr \<Rightarrow> fn_ptr \<Rightarrow> ctx_ptr
     \<Rightarrow> int \<times> WSIO_INSTANCE option \<times> action list" where
  "wsio_open env ws_io on_io_open_complete' on_bytes_received' on_io_error' callback_context' =
     (case ws_io of
        None \<Rightarrow> (529, None, [])
      | Some wsio_instance \<Rightarrow>
          (if io_state wsio_instance = IO_STATE_NOT_OPEN then
             (case create_context_result env of
                None \<Rightarrow>
                  (584,
                   Some (wsio_instance
                     \<lparr> on_bytes_received := on_bytes_received',
                       on_io_open_complete := on_io_open_complete',
                       on_io_error := on_io_error',
                       open_callback_context := callback_context',
                       ws_context := None \<rparr>),
                   [Lws_Create_Context])
              | Some c \<Rightarrow>
                  (case client_connect_result env of
                     None \<Rightarrow>
                       (606,
                        Some (wsio_instance
                          \<lparr> on_bytes_received := on_bytes_received',
                            on_io_open_complete := on_io_open_complete',
                            on_io_error := on_io_error',
                            open_callback_context := callback_context',
                            ws_context := Some c,
                            wsi := None,
                            io_state := IO_STATE_NOT_OPEN \<rparr>),
                        [Lws_Create_Context,
                         Lws_Client_Connect (Some c) (host wsio_instance) (port wsio_instance)
                           (use_ssl wsio_instance) (relative_path wsio_instance)
                           (protocol_name wsio_instance),
                         Lws_Context_Destroy (Some c)])
                   | Some w \<Rightarrow>
                       (0,
                        Some (wsio_instance
                          \<lparr> on_bytes_received := on_bytes_received',
                            on_io_open_complete := on_io_open_complete',
                            on_io_error := on_io_error',
                            open_callback_context := callback_context',
                            ws_context := Some c,
                            wsi := Some w,
                            io_state := IO_STATE_OPENING \<rparr>),
                        [Lws_Create_Context,
                         Lws_Client_Connect (Some c) (host wsio_instance) (port wsio_instance)
                           (use_ssl wsio_instance) (relative_path wsio_instance)
                           (protocol_name wsio_instance)])))
           else (538, Some wsio_instance, [])))"

text \<open>
  The loop of \<open>wsio_close\<close>, lines 653 to 676: as long as the list has a head, its
  callback is called with \<open>IO_SEND_CANCELLED\<close>, the item is freed and then removed.
\<close>

function cancel_pending_ios ::
  "PENDING_SOCKET_IO list \<Rightarrow> PENDING_SOCKET_IO list \<times> action list" where
  "cancel_pending_ios l =
     (case list_get_head_item l of
        None \<Rightarrow> (l, [])
      | Some first_pending_io \<Rightarrow>
          (case cancel_pending_ios (snd (list_remove l first_pending_io)) of
             (l', acts) \<Rightarrow>
               (l',
                (case list_item_get_value l first_pending_io of
                   None \<Rightarrow> []
                 | Some pending_socket_io \<Rightarrow>
                     call_on_send_complete pending_socket_io IO_SEND_CANCELLED
                     @ [Amqpalloc_Free Pending_Bytes_Block, Amqpalloc_Free Pending_Io_Block])
                @ acts)))"
  by pat_completeness auto
termination
  by (relation "measure length")
     (auto simp: list_get_head_item_def list_remove_def split: list.splits)

declare cancel_pending_ios.simps [simp del]

definition wsio_close ::
  "WSIO_INSTANCE option \<Rightarrow> fn_ptr \<Rightarrow> ctx_ptr \<Rightarrow> int \<times> WSIO_INSTANCE option \<times> action list" where
  "wsio_close ws_io on_io_close_complete callback_context' =
     (case ws_io of
        None \<Rightarrow> (627, None, [])
      | Some wsio_instance \<Rightarrow>
          (if io_state wsio_instance = IO_STATE_NOT_OPEN then (637, Some wsio_instance, [])
           else
             (case (if io_state wsio_instance = IO_STATE_OPENING then
                      (pending_io_list wsio_instance,
                       indicate_open_complete wsio_instance IO_OPEN_CANCELLED)
                    else cancel_pending_ios (pending_io_list wsio_instance)) of
                (l, acts) \<Rightarrow>
                  (0,
                   Some (wsio_instance \<lparr> pending_io_list := l, io_state := IO_STATE_NOT_OPEN \<rparr>),
                   acts @ [Lws_Context_Destroy (ws_context wsio_instance)]
                   @ (case on_io_close_complete of
                        None \<Rightarrow> []
                      | Some f \<Rightarrow> [Close_Complete f callback_context'])))))"

text \<open>\<open>wsio_destroy\<close> closes and frees the instance; only its actions remain.\<close>

definition wsio_destroy :: "WSIO_INSTANCE option \<Rightarrow> action list" where
  "wsio_destroy ws_io =
     (case ws_io of
        None \<Rightarrow> []
      | Some wsio_instance \<Rightarrow>
          (case wsio_close (Some wsio_instance) None 0 of
             (rc, inst, acts) \<Rightarrow>
               acts
               @ [Amqpalloc_Free Protocols_Block, Amqpalloc_Free Host_Block,
                  Amqpalloc_Free Protocol_Name_Block, Amqpalloc_Free Relative_Path_Block]
               @ (case trusted_ca wsio_instance of
                    None \<Rightarrow> []
                  | Some ca \<Rightarrow> [Amqpalloc_Free Trusted_Ca_Block])
               @ [List_Destroy, Amqpalloc_Free Instance_Block]))"

definition wsio_dowork :: "WSIO_INSTANCE option \<Rightarrow> action list" where
  "wsio_dowork ws_io =
     (case ws_io of
        None \<Rightarrow> []
      | Some wsio_instance \<Rightarrow>
          (if io_state wsio_instance = IO_STATE_OPEN
              \<or> io_state wsio_instance = IO_STATE_OPENING
           then [Lws_Service (ws_context wsio_instance)]
           else []))"

section \<open>Runs of an instance\<close>

text \<open>
  The caller's operations on one instance and the engine's calls of \<open>on_ws_callback\<close>
  (made while \<open>lws_service\<close> runs), each with the environment's answers. A run applies
  them in order and keeps, for every call, its return code and its actions. A fault ends
  the run.
\<close>

datatype call =
    Call_Open open_env fn_ptr fn_ptr fn_ptr ctx_ptr
  | Call_Close fn_ptr ctx_ptr
  | Call_Send send_env "byte list option" nat fn_ptr ctx_ptr
  | Call_Dowork
  | Engine_Callback callback_env lws_callback_reasons "byte list" nat

type_synonym history = "(call \<times> int \<times> action list) list"

definition keep_instance ::
  "WSIO_INSTANCE \<Rightarrow> int \<times> WSIO_INSTANCE option \<times> action list
     \<Rightarrow> fault + (int \<times> WSIO_INSTANCE \<times> action list)" where
  "keep_instance wsio_instance r =
     (case r of
        (rc, ws_io, acts) \<Rightarrow>
          Inr (rc, (case ws_io of None \<Rightarrow> wsio_instance | Some inst \<Rightarrow> inst), acts))"

fun step :: "WSIO_INSTANCE \<Rightarrow> call \<Rightarrow> fault + (int \<times> WSIO_INSTANCE \<times> action list)" where
  "step inst (Call_Open env oc br er cx) =
     keep_instance inst (wsio_open env (Some inst) oc br er cx)"
| "step inst (Call_Close cc cx) = keep_instance inst (wsio_close (Some inst) cc cx)"
| "step inst (Call_Send env buffer size' sc cx) =
     keep_instance inst (wsio_send env (Some inst) buffer size' sc cx)"
| "step inst Call_Dowork = Inr (0, inst, wsio_dowork (Some inst))"
| "step inst (Engine_Callback env reason in' len) = on_ws_callback env inst reason in' len"

fun run :: "WSIO_INSTANCE \<Rightarrow> call list \<Rightarrow> WSIO_INSTANCE \<times> history" where
  "run inst [] = (inst, [])"
| "run inst (c # cs) =
     (case step inst c of
        Inl f \<Rightarrow> (inst, [])
      | Inr (rc, inst', acts) \<Rightarrow>
          (case run inst' cs of (i, h) \<Rightarrow> (i, (c, rc, acts) # h)))"

definition all_actions :: "history \<Rightarrow> action list" where
  "all_actions h = concat (map (\<lambda>(c, rc, acts). acts) h)"

text \<open>The send completions among the actions: callee and context, in order.\<close>

fun fired :: "action list \<Rightarrow> (nat \<times> ctx_ptr) list" where
  "fired [] = []"
| "fired (Send_Complete f cx r # as) = (f, cx) # fired as"
| "fired (a # as) = fired as"

text \<open>The completions the queued items still wait for (an item without callback: none).\<close>

definition awaiting :: "PENDING_SOCKET_IO list \<Rightarrow> (nat \<times> ctx_ptr) list" where
  "awaiting l =
     concat (map (\<lambda>p. case on_send_complete p of
                          None \<Rightarrow> []
                        | Some f \<Rightarrow> [(f, callback_context p)]) l)"

text \<open>
  The sends of a history that gave a callback and were accepted (\<open>wsio_send\<close> returned
  0), and those that were queued: the accepted ones and the ones that returned at line
  744, after \<open>add_pending_io\<close> had succeeded.
\<close>

fun accepted_send :: "call \<times> int \<times> action list \<Rightarrow> (nat \<times> ctx_ptr) list" where
  "accepted_send (Call_Send env buffer size' (Some f) cx, rc, acts) =
     (if rc = 0 then [(f, cx)] else [])"
| "accepted_send e = []"

fun queued_send :: "call \<times> int \<times> action list \<Rightarrow> (nat \<times> ctx_ptr) list" where
  "queued_send (Call_Send env buffer size' (Some f) cx, rc, acts) =
     (if rc = 0 then [(f, cx)] else if rc = 744 then [(f, cx)] else [])"
| "queued_send e = []"

definition accepted_sends :: "history \<Rightarrow> (nat \<times> ctx_ptr) list" where
  "accepted_sends h = concat (map accepted_send h)"

definition queued_sends :: "history \<Rightarrow> (nat \<times> ctx_ptr) list" where
  "queued_sends h = concat (map queued_send h)"

text \<open>
  The blocks that are allocated and not freed after a list of actions, starting from the
  blocks \<open>live\<close>; \<open>None\<close> when a block is freed that is not allocated.
\<close>

fun heap_after :: "action list \<Rightarrow> block list \<Rightarrow> block list option" where
  "heap_after [] live = Some live"
| "heap_after (Amqpalloc_Malloc b # as) live = heap_after as (b # live)"
| "heap_after (List_Create # as) live = heap_after as (List_Block # live)"
| "heap_after (Amqpalloc_Free b # as) live =
     (if b \<in> set live then heap_after as (remove1 b live) else None)"
| "heap_after (List_Destroy # as) live =
     (if List_Block \<in> set live then heap_after as (remove1 List_Block live) else None)"
| "heap_after (a # as) live = heap_after as live"

section \<open>Sample inputs\<close>

text \<open>
  Concrete inputs for the closed theorems below: a configuration, environments in which
  the engine and the allocator succeed, and an instance as it stands after a successful
  open, in a given state and with a given list of pending items.
\<close>

abbreviation sample_config :: WSIO_CONFIG where
  "sample_config \<equiv>
     \<lparr> cfg_host = Some ''h'', cfg_port = 443, cfg_protocol_name = Some ''amqp'',
       cfg_relative_path = Some ''/'', cfg_trusted_ca = None, cfg_use_ssl = True \<rparr>"

abbreviation engine_ok :: open_env where
  "engine_ok \<equiv> \<lparr> create_context_result = Some 1, client_connect_result = Some 2 \<rparr>"

abbreviation queue_ok :: "int \<Rightarrow> send_env" where
  "queue_ok rc \<equiv>
     \<lparr> pending_io_malloc_ok = True, bytes_malloc_ok = True, list_add_ok = True,
       on_writable_rc = rc \<rparr>"

abbreviation write_gives :: "int \<Rightarrow> callback_env" where
  "write_gives n \<equiv> \<lparr> ws_buffer_malloc_ok = True, lws_write_rc = n, bio_new_ok = True \<rparr>"

abbreviation sample_in :: "IO_STATE \<Rightarrow> PENDING_SOCKET_IO list \<Rightarrow> WSIO_INSTANCE" where
  "sample_in st l \<equiv>
     \<lparr> on_bytes_received = Some 11, on_io_open_complete = Some 10, on_io_error = Some 12,
       logger_log = None, open_callback_context = 99, io_state = st,
       pending_io_list = l,
       ws_context = Some 1, wsi = Some 2, port = 443, host = ''h'', relative_path = ''/'',
       protocol_name = ''amqp'', trusted_ca = None, protocols = [], use_ssl = True \<rparr>"

abbreviation created_instance :: WSIO_INSTANCE where
  "created_instance \<equiv> the (fst (wsio_create (\<lambda>b. True) (Some sample_config) None))"

abbreviation sample_calls :: "call list" where
  "sample_calls \<equiv>
     [Call_Open engine_ok (Some 10) (Some 11) (Some 12) 99,
      Engine_Callback (write_gives 0) LWS_CALLBACK_CLIENT_ESTABLISHED [] 0,
      Call_Send (queue_ok 0) (Some [1, 2, 3]) 3 (Some 20) 77,
      Call_Send (queue_ok (- 1)) (Some [4, 5]) 2 (Some 21) 78,
      Call_Send (queue_ok 0) (Some [6]) 1 None 0,
      Call_Send (queue_ok 0) (Some [7, 8]) 2 (Some 22) 79,
      Engine_Callback (write_gives 1) LWS_CALLBACK_CLIENT_WRITEABLE [] 0,
      Engine_Callback (write_gives 3) LWS_CALLBACK_CLIENT_WRITEABLE [] 0,
      Engine_Callback (write_gives (- 1)) LWS_CALLBACK_CLIENT_WRITEABLE [] 0]"

section \<open>Auxiliary facts\<close>

subsection \<open>The list and the cancel loop\<close>

lemma list_head_simps:
  "list_get_head_item [] = None"
  "list_get_head_item (x # r) = Some 0"
  "list_item_get_value (x # r) 0 = Some x"
  "list_remove (x # r) 0 = (0, r)"
  by (simp_all add: list_get_head_item_def list_item_get_value_def list_remove_def)

lemma cancel_pending_ios_Nil: "cancel_pending_ios [] = ([], [])"
  by (simp add: cancel_pending_ios.simps list_head_simps)

lemma cancel_pending_ios_Cons:
  "cancel_pending_ios (p # l) =
     (fst (cancel_pending_ios l),
      call_on_send_complete p IO_SEND_CANCELLED
      @ [Amqpalloc_Free Pending_Bytes_Block, Amqpalloc_Free Pending_Io_Block]
      @ snd (cancel_pending_ios l))"
  by (subst cancel_pending_ios.simps) (simp add: list_head_simps split: prod.splits)

lemma fired_append: "fired (a @ b) = fired a @ fired b"
  by (induction a rule: fired.induct) simp_all

lemma fired_indicate_error: "fired (indicate_error i) = []"
  by (simp add: indicate_error_def split: option.splits)

lemma fired_indicate_open_complete: "fired (indicate_open_complete i r) = []"
  by (simp add: indicate_open_complete_def split: option.splits)

lemma awaiting_Nil: "awaiting [] = []"
  by (simp add: awaiting_def)

lemma awaiting_Cons: "awaiting (p # l) = awaiting [p] @ awaiting l"
  by (simp add: awaiting_def)

lemma awaiting_snoc: "awaiting (l @ [p]) = awaiting l @ awaiting [p]"
  by (simp add: awaiting_def)

lemma fired_call_on_send_complete: "fired (call_on_send_complete p r) = awaiting [p]"
  by (simp add: call_on_send_complete_def awaiting_def split: option.splits)

lemma fired_log: "fired (map (Log_Byte lg) xs) = []"
  by (induction xs) simp_all

lemma cancel_pending_ios_result:
  "fst (cancel_pending_ios l) = [] \<and> fired (snd (cancel_pending_ios l)) = awaiting l"
proof (induction l)
  case Nil
  show ?case by (simp add: cancel_pending_ios_Nil awaiting_Nil)
next
  case (Cons p l)
  then show ?case
    by (simp add: cancel_pending_ios_Cons fired_append fired_call_on_send_complete
        awaiting_Cons [of p l])
qed

lemma remove_pending_io_head:
  "remove_pending_io i 0 q = (i', a) \<Longrightarrow> pending_io_list i = p # l \<Longrightarrow>
     pending_io_list i' = l \<and> io_state i' = io_state i \<and> fired a = []"
  by (auto simp: remove_pending_io_def list_head_simps)

lemma send_failed_head:
  "send_failed i 0 p = (i', a) \<Longrightarrow> pending_io_list i = p # l \<Longrightarrow>
     pending_io_list i' = l \<and> fired a = awaiting [p]
     \<and> (io_state i' = io_state i \<or> io_state i' = IO_STATE_ERROR)"
  by (auto simp: send_failed_def remove_pending_io_def list_head_simps fired_append
      fired_call_on_send_complete fired_indicate_error split: if_splits)

lemma awaiting_Cons_cong:
  "on_send_complete q = on_send_complete p \<Longrightarrow> callback_context q = callback_context p \<Longrightarrow>
     awaiting (q # l) = awaiting (p # l)"
  by (simp add: awaiting_def split: option.splits)

lemma send_head_head:
  assumes "send_head env i 0 p = (i', a)" and "pending_io_list i = p # l"
  shows "fired a @ awaiting (pending_io_list i') = awaiting (p # l)
     \<and> (io_state i' = io_state i \<or> io_state i' = IO_STATE_ERROR)"
proof (cases "ws_buffer_malloc_ok env")
  case False
  with assms(1) have "send_failed i 0 p = (i', a)"
    by (simp add: send_head_def)
  from send_failed_head [OF this assms(2)] show ?thesis
    by (simp add: awaiting_Cons [of p l])
next
  case True
  note alloc = this
  show ?thesis
  proof (cases "lws_write_rc env < 0")
    case True
    obtain i1 a1 where f: "send_failed i 0 p = (i1, a1)"
      by (cases "send_failed i 0 p")
    with assms(1) alloc True have "i' = i1" and "fired a = fired a1"
      by (auto simp: send_head_def fired_append)
    with send_failed_head [OF f assms(2)] show ?thesis
      by (simp add: awaiting_Cons [of p l])
  next
    case False
    note nonneg = this
    show ?thesis
    proof (cases "nat (lws_write_rc env) < size_bytes p")
      case True
      with assms alloc nonneg
      have "i' = i \<lparr> pending_io_list :=
              p \<lparr> bytes := memmove_bytes (bytes p) (nat (lws_write_rc env))
                     (size_bytes p - nat (lws_write_rc env)) \<rparr> # l \<rparr>"
        and "fired a = []"
        by (auto simp: send_head_def)
      moreover have "awaiting (p \<lparr> bytes := memmove_bytes (bytes p) (nat (lws_write_rc env))
                     (size_bytes p - nat (lws_write_rc env)) \<rparr> # l) = awaiting (p # l)"
        by (rule awaiting_Cons_cong) simp_all
      ultimately show ?thesis
        by simp
    next
      case False
      obtain i1 a1 where r: "remove_pending_io i 0 p = (i1, a1)"
        by (cases "remove_pending_io i 0 p")
      with assms(1) alloc nonneg False
      have "i' = i1" and "fired a = awaiting [p] @ fired a1"
        by (auto simp: send_head_def fired_append fired_call_on_send_complete)
      with remove_pending_io_head [OF r assms(2)] show ?thesis
        by (simp add: awaiting_Cons [of p l])
    qed
  qed
qed

lemma on_writeable_fired:
  assumes "on_writeable env i = (i', a)"
  shows "fired a @ awaiting (pending_io_list i') = awaiting (pending_io_list i)
     \<and> (io_state i' = io_state i \<or> io_state i' = IO_STATE_ERROR)
     \<and> (pending_io_list i = [] \<longrightarrow> i' = i)"
proof (cases "pending_io_list i")
  case Nil
  with assms show ?thesis
    by (simp add: on_writeable_def list_head_simps)
next
  case (Cons p l)
  obtain i1 a1 where s: "send_head env i 0 p = (i1, a1)"
    by (cases "send_head env i 0 p")
  with assms Cons have "i' = i1" and "fired a = fired a1"
    by (auto simp: on_writeable_def list_head_simps fired_append split: option.splits)
  with send_head_head [OF s Cons] Cons show ?thesis
    by simp
qed

subsection \<open>Completions of single calls\<close>

lemma wsio_open_fired:
  "wsio_open env (Some i) oc br er cx = (rc, ws, a) \<Longrightarrow>
     \<exists>i'. ws = Some i' \<and> pending_io_list i' = pending_io_list i \<and> fired a = []
       \<and> (io_state i' = io_state i
           \<or> (io_state i = IO_STATE_NOT_OPEN \<and> io_state i' = IO_STATE_OPENING))"
  by (auto simp: wsio_open_def split: if_splits option.splits)

lemma wsio_close_fired:
  assumes "wsio_close (Some i) cc cx = (rc, ws, a)"
  shows "\<exists>i'. ws = Some i'
       \<and> fired a @ awaiting (pending_io_list i') = awaiting (pending_io_list i)
       \<and> io_state i' = IO_STATE_NOT_OPEN
       \<and> (io_state i = IO_STATE_OPENING \<or> io_state i = IO_STATE_NOT_OPEN
            \<or> pending_io_list i' = [])
       \<and> (io_state i = IO_STATE_OPENING \<or> io_state i = IO_STATE_NOT_OPEN
            \<longrightarrow> pending_io_list i' = pending_io_list i)"
proof (cases "io_state i = IO_STATE_NOT_OPEN")
  case True
  with assms show ?thesis by (auto simp: wsio_close_def)
next
  case False
  note open' = this
  show ?thesis
  proof (cases "io_state i = IO_STATE_OPENING")
    case True
    with assms show ?thesis
      by (auto simp: wsio_close_def fired_append fired_indicate_open_complete
          split: option.splits)
  next
    case False
    obtain l a1 where c: "cancel_pending_ios (pending_io_list i) = (l, a1)"
      by (cases "cancel_pending_ios (pending_io_list i)")
    with cancel_pending_ios_result [of "pending_io_list i"]
    have "l = []" and "fired a1 = awaiting (pending_io_list i)" by simp_all
    with assms open' False c show ?thesis
      by (auto simp: wsio_close_def fired_append awaiting_Nil split: option.splits)
  qed
qed

lemma wsio_send_fired:
  assumes "wsio_send env (Some i) buffer n sc cx = (rc, ws, a)"
  shows "\<exists>i'. ws = Some i'
       \<and> fired a @ awaiting (pending_io_list i')
           = awaiting (pending_io_list i) @ queued_send (Call_Send env buffer n sc cx, rc, a)
       \<and> io_state i' = io_state i
       \<and> (io_state i = IO_STATE_OPEN \<or> i' = i)"
  using assms
  by (cases sc)
     (auto simp: wsio_send_def add_pending_io_def list_add_def fired_append fired_log
        awaiting_snoc [of "pending_io_list i"] awaiting_def
        split: option.splits if_splits)

lemma on_ws_callback_fired:
  assumes "on_ws_callback env i reason in' len = Inr (rc, i', a)"
  shows "fired a @ awaiting (pending_io_list i') = awaiting (pending_io_list i)
     \<and> (io_state i = IO_STATE_NOT_OPEN \<or> io_state i = IO_STATE_OPENING
          \<longrightarrow> pending_io_list i = [] \<longrightarrow> pending_io_list i' = [])
     \<and> (io_state i' = IO_STATE_NOT_OPEN \<or> io_state i' = IO_STATE_OPENING
          \<longrightarrow> io_state i = IO_STATE_NOT_OPEN \<or> io_state i = IO_STATE_OPENING)"
proof (cases reason)
  case LWS_CALLBACK_CLIENT_WRITEABLE
  obtain i1 a1 where w: "on_writeable env i = (i1, a1)"
    by (cases "on_writeable env i")
  with assms LWS_CALLBACK_CLIENT_WRITEABLE have "i' = i1" and "a = a1"
    by (simp_all add: on_ws_callback_def)
  with on_writeable_fired [OF w] show ?thesis by auto
qed (use assms in \<open>auto simp: on_ws_callback_def fired_indicate_error
       fired_indicate_open_complete fired_append split: if_splits option.splits\<close>)

lemma step_fired:
  assumes "step i c = Inr (rc, i', a)"
  shows "fired a @ awaiting (pending_io_list i')
           = awaiting (pending_io_list i) @ queued_send (c, rc, a)"
proof (cases c)
  case (Call_Open env oc br er cx)
  obtain r ws b where o: "wsio_open env (Some i) oc br er cx = (r, ws, b)"
    by (cases "wsio_open env (Some i) oc br er cx")
  with wsio_open_fired [OF o] assms Call_Open show ?thesis
    by (auto simp: keep_instance_def)
next
  case (Call_Close cc cx)
  obtain r ws b where o: "wsio_close (Some i) cc cx = (r, ws, b)"
    by (cases "wsio_close (Some i) cc cx")
  with wsio_close_fired [OF o] assms Call_Close show ?thesis
    by (auto simp: keep_instance_def)
next
  case (Call_Send env buffer n sc cx)
  obtain r ws b where o: "wsio_send env (Some i) buffer n sc cx = (r, ws, b)"
    by (cases "wsio_send env (Some i) buffer n sc cx")
  with wsio_send_fired [OF o] assms Call_Send show ?thesis
    by (auto simp: keep_instance_def)
next
  case Call_Dowork
  with assms show ?thesis by (auto simp: wsio_dowork_def)
next
  case (Engine_Callback env reason in' len)
  with assms on_ws_callback_fired [of env i reason in' len rc i' a] show ?thesis
    by simp
qed

lemma step_quiet:
  assumes "step i c = Inr (rc, i', a)"
    and "io_state i = IO_STATE_NOT_OPEN \<or> io_state i = IO_STATE_OPENING
           \<longrightarrow> pending_io_list i = []"
  shows "io_state i' = IO_STATE_NOT_OPEN \<or> io_state i' = IO_STATE_OPENING
           \<longrightarrow> pending_io_list i' = []"
proof (cases c)
  case (Call_Open env oc br er cx)
  obtain r ws b where o: "wsio_open env (Some i) oc br er cx = (r, ws, b)"
    by (cases "wsio_open env (Some i) oc br er cx")
  with wsio_open_fired [OF o] assms Call_Open show ?thesis
    by (auto simp: keep_instance_def)
next
  case (Call_Close cc cx)
  obtain r ws b where o: "wsio_close (Some i) cc cx = (r, ws, b)"
    by (cases "wsio_close (Some i) cc cx")
  with wsio_close_fired [OF o] assms Call_Close show ?thesis
    by (auto simp: keep_instance_def)
next
  case (Call_Send env buffer n sc cx)
  obtain r ws b where o: "wsio_send env (Some i) buffer n sc cx = (r, ws, b)"
    by (cases "wsio_send env (Some i) buffer n sc cx")
  with wsio_send_fired [OF o] assms Call_Send show ?thesis
    by (auto simp: keep_instance_def)
next
  case Call_Dowork
  with assms show ?thesis by auto
next
  case (Engine_Callback env reason in' len)
  with assms on_ws_callback_fired [of env i reason in' len rc i' a] show ?thesis
    by auto
qed

lemma run_fired:
  "run i cs = (i', h) \<Longrightarrow>
     fired (all_actions h) @ awaiting (pending_io_list i')
       = awaiting (pending_io_list i) @ queued_sends h"
proof (induction cs arbitrary: i i' h)
  case Nil
  then show ?case by (simp add: all_actions_def queued_sends_def)
next
  case (Cons c cs)
  show ?case
  proof (cases "step i c")
    case (Inl f)
    with Cons.prems show ?thesis by (simp add: all_actions_def queued_sends_def)
  next
    case (Inr r)
    obtain rc i1 a where r: "r = (rc, i1, a)" by (cases r)
    obtain i2 h2 where t: "run i1 cs = (i2, h2)" by (cases "run i1 cs")
    from Cons.prems Inr r t have e: "i' = i2" "h = (c, rc, a) # h2" by simp_all
    from Inr r have s: "step i c = Inr (rc, i1, a)" by simp
    have "fired (all_actions h) @ awaiting (pending_io_list i')
            = fired a @ (fired (all_actions h2) @ awaiting (pending_io_list i2))"
      using e by (simp add: all_actions_def fired_append)
    also have "\<dots> = fired a @ awaiting (pending_io_list i1) @ queued_sends h2"
      using Cons.IH [OF t] by simp
    also have "\<dots> = awaiting (pending_io_list i) @ queued_send (c, rc, a) @ queued_sends h2"
      using step_fired [OF s] by simp
    finally show ?thesis using e by (simp add: queued_sends_def)
  qed
qed

lemma run_quiet:
  "run i cs = (i', h) \<Longrightarrow>
     (io_state i = IO_STATE_NOT_OPEN \<or> io_state i = IO_STATE_OPENING
        \<longrightarrow> pending_io_list i = []) \<Longrightarrow>
     (io_state i' = IO_STATE_NOT_OPEN \<or> io_state i' = IO_STATE_OPENING
        \<longrightarrow> pending_io_list i' = [])"
proof (induction cs arbitrary: i i' h)
  case Nil
  then show ?case by simp
next
  case (Cons c cs)
  show ?case
  proof (cases "step i c")
    case (Inl f)
    with Cons.prems show ?thesis by simp
  next
    case (Inr r)
    obtain rc i1 a where r: "r = (rc, i1, a)" by (cases r)
    obtain i2 h2 where t: "run i1 cs = (i2, h2)" by (cases "run i1 cs")
    from Cons.prems Inr r t have e: "i' = i2" by simp
    from Inr r have s: "step i c = Inr (rc, i1, a)" by simp
    from Cons.IH [OF t step_quiet [OF s Cons.prems(2)]] e show ?thesis by simp
  qed
qed

lemma wsio_create_fresh:
  "wsio_create alloc_ok cfg lg = (Some i, a) \<Longrightarrow>
     io_state i = IO_STATE_NOT_OPEN \<and> pending_io_list i = []"
  by (auto simp: wsio_create_def split: option.splits if_splits)

lemma wsio_destroy_fired:
  assumes "io_state i = IO_STATE_NOT_OPEN \<or> io_state i = IO_STATE_OPENING
             \<longrightarrow> pending_io_list i = []"
  shows "fired (wsio_destroy (Some i)) = awaiting (pending_io_list i)"
proof -
  obtain rc ws a where c: "wsio_close (Some i) None 0 = (rc, ws, a)"
    by (cases "wsio_close (Some i) None 0")
  from wsio_close_fired [OF c] assms have "fired a = awaiting (pending_io_list i)"
    by (auto simp: awaiting_Nil)
  with c show ?thesis
    by (simp add: wsio_destroy_def fired_append split: option.splits)
qed

lemma accepted_subseq_queued: "subseq (accepted_sends h) (queued_sends h)"
proof (induction h)
  case Nil
  show ?case by (simp add: accepted_sends_def queued_sends_def)
next
  case (Cons e h)
  have "subseq (accepted_send e) (queued_send e)"
    by (cases e rule: queued_send.cases) simp_all
  with Cons show ?case
    by (simp add: accepted_sends_def queued_sends_def list_emb_append_mono)
qed

subsection \<open>The flag \<open>is_partially_sent\<close> and the error state\<close>

text \<open>
  No function sets \<open>is_partially_sent\<close>: in every run that starts with no marked item
  and outside the error state, no item is ever marked and the error state is never
  entered, whatever the engine answers.
\<close>

lemma on_writeable_unmarked:
  assumes "on_writeable env i = (i', a)"
    and "list_all (\<lambda>p. \<not> is_partially_sent p) (pending_io_list i)"
  shows "list_all (\<lambda>p. \<not> is_partially_sent p) (pending_io_list i')
       \<and> io_state i' = io_state i"
proof (cases "pending_io_list i")
  case Nil
  with assms show ?thesis
    by (simp add: on_writeable_def list_head_simps)
next
  case (Cons p l)
  with assms show ?thesis
    by (auto simp: on_writeable_def send_head_def send_failed_def remove_pending_io_def
        list_head_simps split: if_splits option.splits)
qed

lemma step_unmarked:
  assumes "step i c = Inr (rc, i', a)"
    and "list_all (\<lambda>p. \<not> is_partially_sent p) (pending_io_list i)"
    and "io_state i \<noteq> IO_STATE_ERROR"
  shows "list_all (\<lambda>p. \<not> is_partially_sent p) (pending_io_list i')
       \<and> io_state i' \<noteq> IO_STATE_ERROR"
proof (cases c)
  case (Call_Open env oc br er cx)
  with assms show ?thesis
    by (auto simp: keep_instance_def wsio_open_def split: if_splits option.splits)
next
  case (Call_Close cc cx)
  with assms cancel_pending_ios_result [of "pending_io_list i"] show ?thesis
    by (auto simp: keep_instance_def wsio_close_def split: if_splits prod.splits)
next
  case (Call_Send env buffer n sc cx)
  with assms show ?thesis
    by (auto simp: keep_instance_def wsio_send_def add_pending_io_def list_add_def
        split: if_splits option.splits)
next
  case Call_Dowork
  with assms show ?thesis by simp
next
  case (Engine_Callback env reason in' len)
  show ?thesis
  proof (cases reason)
    case LWS_CALLBACK_CLIENT_WRITEABLE
    obtain i1 a1 where w: "on_writeable env i = (i1, a1)"
      by (cases "on_writeable env i")
    with assms Engine_Callback LWS_CALLBACK_CLIENT_WRITEABLE have "i' = i1"
      by (simp add: on_ws_callback_def)
    with on_writeable_unmarked [OF w assms(2)] assms(3) show ?thesis by simp
  qed (use assms Engine_Callback in \<open>auto simp: on_ws_callback_def
         split: if_splits option.splits\<close>)
qed

lemma run_unmarked:
  "run i cs = (i', h) \<Longrightarrow>
     list_all (\<lambda>p. \<not> is_partially_sent p) (pending_io_list i) \<Longrightarrow>
     io_state i \<noteq> IO_STATE_ERROR \<Longrightarrow>
     list_all (\<lambda>p. \<not> is_partially_sent p) (pending_io_list i')
       \<and> io_state i' \<noteq> IO_STATE_ERROR"
proof (induction cs arbitrary: i i' h)
  case Nil
  then show ?case by simp
next
  case (Cons c cs)
  show ?case
  proof (cases "step i c")
    case (Inl f)
    with Cons.prems show ?thesis by simp
  next
    case (Inr r)
    obtain rc i1 a where r: "r = (rc, i1, a)" by (cases r)
    obtain i2 h2 where t: "run i1 cs = (i2, h2)" by (cases "run i1 cs")
    from Cons.prems Inr r t have e: "i' = i2" by simp
    from Inr r have s: "step i c = Inr (rc, i1, a)" by simp
    from step_unmarked [OF s Cons.prems(2,3)] Cons.IH [OF t] e show ?thesis by simp
  qed
qed

lemma created_instance_never_in_error:
  assumes "wsio_create alloc_ok cfg lg = (Some inst0, a0)"
    and "run inst0 calls = (inst, h)"
  shows "list_all (\<lambda>p. \<not> is_partially_sent p) (pending_io_list inst)
       \<and> io_state inst \<noteq> IO_STATE_ERROR"
  using run_unmarked [OF assms(2)] wsio_create_fresh [OF assms(1)] by simp

subsection \<open>The guards in the error state, and a registered receive callback\<close>

text \<open>
  What the three operations do on an instance whose state is \<open>IO_STATE_ERROR\<close>: the
  state guards of \<open>wsio_open\<close> and \<open>wsio_send\<close> refuse the call, and \<open>wsio_close\<close>, which
  refuses only \<open>IO_STATE_NOT_OPEN\<close>, cancels every pending write and destroys the context.
  By the previous lemma no run of a created instance is ever in that state. The last
  lemma is the receive case for a callback that is not NULL.
\<close>

lemma cancel_pending_ios_exact:
  "cancel_pending_ios l =
     ([], concat (map (\<lambda>p. call_on_send_complete p IO_SEND_CANCELLED
                           @ [Amqpalloc_Free Pending_Bytes_Block,
                              Amqpalloc_Free Pending_Io_Block]) l))"
  by (induction l) (simp_all add: cancel_pending_ios_Nil cancel_pending_ios_Cons)

lemma error_state_guards:
  assumes "io_state inst = IO_STATE_ERROR"
  shows "wsio_open oenv (Some inst) oc br er cx = (538, Some inst, [])
       \<and> (\<exists>rc. rc \<noteq> 0 \<and> wsio_send senv (Some inst) buffer n sc cx' = (rc, Some inst, []))
       \<and> wsio_close (Some inst) cc cx'' =
           (0, Some (inst \<lparr> pending_io_list := [], io_state := IO_STATE_NOT_OPEN \<rparr>),
            concat (map (\<lambda>p. call_on_send_complete p IO_SEND_CANCELLED
                           @ [Amqpalloc_Free Pending_Bytes_Block,
                              Amqpalloc_Free Pending_Io_Block]) (pending_io_list inst))
            @ Lws_Context_Destroy (ws_context inst)
            # (case cc of None \<Rightarrow> [] | Some g \<Rightarrow> [Close_Complete g cx'']))"
  using assms
  by (simp add: wsio_open_def wsio_send_def wsio_close_def cancel_pending_ios_exact
      split: option.splits)

lemma receive_forwards_when_registered:
  assumes "on_bytes_received inst = Some f"
  shows "on_ws_callback env inst LWS_CALLBACK_CLIENT_RECEIVE in' len
           = Inr (0, inst, [Bytes_Received f (open_callback_context inst) in' len])"
  using assms by (simp add: on_ws_callback_def)

section \<open>The claims\<close>

subsection \<open>C1: a write that fails after a partial round\<close>

text \<open>
  C1. The claim: when the transmission of the head write fails after some of its bytes
  went out in an earlier partial round, the write completes once with \<open>IO_SEND_ERROR\<close>,
  is removed, and the instance goes to the error state and raises \<open>on_io_error\<close>. The
  code tests \<open>is_partially_sent\<close> for that, but no line of \<open>wsio.c\<close> ever sets the flag.
  The run below sends 30 bytes, of which the engine takes 5; the next \<open>lws_write\<close>
  returns -1. The write completes with \<open>IO_SEND_ERROR\<close>, but no \<open>Io_Error\<close> is raised,
  the state stays \<open>IO_STATE_OPEN\<close> and the next \<open>wsio_send\<close> is accepted.
\<close>

theorem failed_write_after_partial_send_stays_open:
  "(case wsio_create (\<lambda>b. True) (Some sample_config) None of
      (None, a) \<Rightarrow> False
    | (Some inst0, a) \<Rightarrow>
        (case run inst0
           [Call_Open engine_ok (Some 10) (Some 11) (Some 12) 99,
            Engine_Callback (write_gives 0) LWS_CALLBACK_CLIENT_ESTABLISHED [] 0,
            Call_Send (queue_ok 0)
              (Some [1, 2, 3, 4, 5, 6, 7, 8, 9, 10, 11, 12, 13, 14, 15, 16, 17, 18, 19, 20,
                     21, 22, 23, 24, 25, 26, 27, 28, 29, 30]) 30 (Some 20) 77,
            Engine_Callback (write_gives 5) LWS_CALLBACK_CLIENT_WRITEABLE [] 0,
            Engine_Callback (write_gives (- 1)) LWS_CALLBACK_CLIENT_WRITEABLE [] 0,
            Call_Send (queue_ok 0) (Some [1]) 1 (Some 20) 78] of
           (inst, h) \<Rightarrow>
             io_state inst = IO_STATE_OPEN \<and>
             map (\<lambda>(c, rc, acts). (rc, acts)) (drop 4 h) =
               [(0, [Amqpalloc_Malloc Ws_Buffer_Block,
                     Lws_Write (Some 2)
                       [6, 7, 8, 9, 10, 11, 12, 13, 14, 15, 16, 17, 18, 19, 20, 21, 22,
                        23, 24, 25, 26, 27, 28, 29, 30, 26, 27, 28, 29, 30] 30,
                     Send_Complete 20 77 IO_SEND_ERROR,
                     Amqpalloc_Free Pending_Bytes_Block, Amqpalloc_Free Pending_Io_Block,
                     Amqpalloc_Free Ws_Buffer_Block]),
                (0, [Amqpalloc_Malloc Pending_Io_Block, Amqpalloc_Malloc Pending_Bytes_Block,
                     Lws_Callback_On_Writable (Some 2)])]))"
  by code_simp

subsection \<open>C2: a partial round\<close>

text \<open>
  C2. The claim: after the engine took \<open>n\<close> bytes of a write, the write stays at the
  head without a callback, the next round submits only the remaining bytes, the write is
  marked partially sent, and the engine sees the caller's bytes once and in order. The
  code moves the unsent bytes to the front of the buffer but leaves \<open>size\<close> and
  \<open>is_partially_sent\<close> as they were. For the buffer 1, 2, 3 of which the engine takes
  one byte, the head item afterwards still has size 3, holds 2, 3, 3 and is not marked;
  the next round hands 2, 3, 3 to \<open>lws_write\<close>, so the engine takes 1, 2, 3, 3.
\<close>

theorem partial_send_resubmits_whole_size:
  "(case wsio_create (\<lambda>b. True) (Some sample_config) None of
      (None, a) \<Rightarrow> False
    | (Some inst0, a) \<Rightarrow>
        (case run inst0
           [Call_Open engine_ok (Some 10) (Some 11) (Some 12) 99,
            Engine_Callback (write_gives 0) LWS_CALLBACK_CLIENT_ESTABLISHED [] 0,
            Call_Send (queue_ok 0) (Some [1, 2, 3]) 3 (Some 20) 77,
            Engine_Callback (write_gives 1) LWS_CALLBACK_CLIENT_WRITEABLE [] 0] of
           (inst, h) \<Rightarrow>
             pending_io_list inst =
               [\<lparr> bytes = [2, 3, 3], size_bytes = 3, on_send_complete = Some 20,
                  callback_context = 77, is_partially_sent = False \<rparr>] \<and>
             on_ws_callback (write_gives 3) inst LWS_CALLBACK_CLIENT_WRITEABLE [] 0 =
               Inr (0, inst \<lparr> pending_io_list := [] \<rparr>,
                    [Amqpalloc_Malloc Ws_Buffer_Block, Lws_Write (Some 2) [2, 3, 3] 3,
                     Send_Complete 20 77 IO_SEND_OK, Amqpalloc_Free Pending_Bytes_Block,
                     Amqpalloc_Free Pending_Io_Block, Amqpalloc_Free Ws_Buffer_Block])))"
  by code_simp

subsection \<open>C3: every queued write completes once, in the order of the sends\<close>

text \<open>
  C3. For every run of a created instance: the send completions fired so far, followed
  by those the items still in the queue wait for, are exactly the queued sends, with the
  callback and context given at the send and in the order of the send calls. So no write
  completes twice or out of order, however many partial rounds it took; a
  \<open>Send_Complete\<close> carries one of the three results. \<open>wsio_destroy\<close> fires the
  completions still waited for, so over the life of the instance each queued write
  completes exactly once. The accepted sends (return 0) are among the queued ones, in
  order. A send without callback has no completion.
\<close>

theorem send_completions_once_in_order:
  assumes "wsio_create alloc_ok cfg lg = (Some inst0, a0)"
    and "run inst0 calls = (inst, h)"
  shows "fired (all_actions h) @ awaiting (pending_io_list inst) = queued_sends h
       \<and> fired (wsio_destroy (Some inst)) = awaiting (pending_io_list inst)
       \<and> subseq (accepted_sends h) (queued_sends h)"
proof -
  from wsio_create_fresh [OF assms(1)]
  have fresh: "io_state inst0 = IO_STATE_NOT_OPEN" "pending_io_list inst0 = []"
    by simp_all
  from run_fired [OF assms(2)] fresh
  have "fired (all_actions h) @ awaiting (pending_io_list inst) = queued_sends h"
    by (simp add: awaiting_Nil)
  moreover from run_quiet [OF assms(2)] fresh
  have "io_state inst = IO_STATE_NOT_OPEN \<or> io_state inst = IO_STATE_OPENING
          \<longrightarrow> pending_io_list inst = []"
    by simp
  then have "fired (wsio_destroy (Some inst)) = awaiting (pending_io_list inst)"
    by (rule wsio_destroy_fired)
  ultimately show ?thesis
    using accepted_subseq_queued [of h] by simp
qed

theorem send_completions_once_in_order_witness:
  "wsio_create (\<lambda>b. True) (Some sample_config) None
     = (Some created_instance, snd (wsio_create (\<lambda>b. True) (Some sample_config) None))
   \<and> fired (all_actions (snd (run created_instance sample_calls))) = [(20, 77), (21, 78)]
   \<and> awaiting (pending_io_list (fst (run created_instance sample_calls))) = [(22, 79)]
   \<and> queued_sends (snd (run created_instance sample_calls)) = [(20, 77), (21, 78), (22, 79)]
   \<and> fired (wsio_destroy (Some (fst (run created_instance sample_calls)))) = [(22, 79)]
   \<and> subseq (accepted_sends (snd (run created_instance sample_calls)))
        (queued_sends (snd (run created_instance sample_calls)))"
proof -
  have c: "wsio_create (\<lambda>b. True) (Some sample_config) None
     = (Some created_instance, snd (wsio_create (\<lambda>b. True) (Some sample_config) None))"
    by code_simp
  have r: "run created_instance sample_calls
     = (fst (run created_instance sample_calls), snd (run created_instance sample_calls))"
    by simp
  have f: "fired (all_actions (snd (run created_instance sample_calls))) = [(20, 77), (21, 78)]"
    by code_simp
  have a: "awaiting (pending_io_list (fst (run created_instance sample_calls))) = [(22, 79)]"
    by code_simp
  from send_completions_once_in_order [OF c r] c f a show ?thesis
    by simp
qed

subsection \<open>C4: after the error\<close>


subsection \<open>C5: the writable notification fails after the write was queued\<close>

text \<open>
  C5. The claim: when \<open>lws_callback_on_writable\<close> fails after the write was queued,
  \<open>wsio_send\<close> still reports the send as accepted. The code returns the non-zero code
  of line 744; the write stays in the queue.
\<close>

theorem send_reports_failure_when_notification_fails:
  "wsio_send (queue_ok (- 1)) (Some (sample_in IO_STATE_OPEN [])) (Some [1, 2]) 2 (Some 20) 77 =
     (744,
      Some (sample_in IO_STATE_OPEN
              [\<lparr> bytes = [1, 2], size_bytes = 2, on_send_complete = Some 20,
                 callback_context = 77, is_partially_sent = False \<rparr>]),
      [Amqpalloc_Malloc Pending_Io_Block, Amqpalloc_Malloc Pending_Bytes_Block,
       Lws_Callback_On_Writable (Some 2)])"
  by code_simp

text \<open>
  C5, as amended. If, after a write has been queued by \<open>wsio_send\<close> on an open instance,
  \<open>lws_callback_on_writable\<close> returns a negative value, then \<open>wsio_send\<close> returns the
  non-zero code 744, the write remains at the tail of the queue, and nothing but the
  allocations and the failed request has happened (no completion is fired).
\<close>

theorem send_fails_but_keeps_write_when_notification_fails:
  assumes "io_state inst = IO_STATE_OPEN" and "0 < n"
    and "pending_io_malloc_ok env" and "bytes_malloc_ok env" and "list_add_ok env"
    and "on_writable_rc env < 0"
  shows "wsio_send env (Some inst) (Some buf) n sc cx =
           (744,
            Some (inst \<lparr> pending_io_list := pending_io_list inst @
              [\<lparr> bytes = take n buf, size_bytes = n, on_send_complete = sc,
                 callback_context = cx, is_partially_sent = False \<rparr>] \<rparr>),
            (case logger_log inst of
               None \<Rightarrow> []
             | Some lg \<Rightarrow> map (Log_Byte lg) (take n buf))
            @ [Amqpalloc_Malloc Pending_Io_Block, Amqpalloc_Malloc Pending_Bytes_Block,
               Lws_Callback_On_Writable (wsi inst)])"
  using assms
  by (simp add: wsio_send_def add_pending_io_def list_add_def)

theorem send_fails_but_keeps_write_when_notification_fails_witness:
  "io_state (sample_in IO_STATE_OPEN []) = IO_STATE_OPEN \<and> (0::nat) < 2
   \<and> on_writable_rc (queue_ok (- 1)) < 0
   \<and> wsio_send (queue_ok (- 1)) (Some (sample_in IO_STATE_OPEN [])) (Some [1, 2]) 2
         (Some 20) 77 =
       (744,
        Some (sample_in IO_STATE_OPEN
                [\<lparr> bytes = [1, 2], size_bytes = 2, on_send_complete = Some 20,
                   callback_context = 77, is_partially_sent = False \<rparr>]),
        [Amqpalloc_Malloc Pending_Io_Block, Amqpalloc_Malloc Pending_Bytes_Block,
         Lws_Callback_On_Writable (Some 2)])"
proof -
  have s: "io_state (sample_in IO_STATE_OPEN []) = IO_STATE_OPEN" by simp
  have n: "(0::nat) < 2" by simp
  have e: "pending_io_malloc_ok (queue_ok (- 1))" "bytes_malloc_ok (queue_ok (- 1))"
    "list_add_ok (queue_ok (- 1))" "on_writable_rc (queue_ok (- 1)) < 0"
    by simp_all
  from send_fails_but_keeps_write_when_notification_fails [OF s n e, of "[1, 2]" "Some 20" 77]
  show ?thesis by simp
qed

subsection \<open>C6: close while the open is in progress\<close>

text \<open>
  C6. \<open>wsio_close\<close> on an instance in \<open>IO_STATE_OPENING\<close> calls the registered
  \<open>on_io_open_complete\<close> (if it is not NULL) with \<open>IO_OPEN_CANCELLED\<close>, then destroys
  the context, returns 0 and leaves the instance in \<open>IO_STATE_NOT_OPEN\<close>; a following
  \<open>wsio_open\<close> on that instance, with an engine that creates the context and the
  connection, returns 0 and leaves it in \<open>IO_STATE_OPENING\<close>.
\<close>

theorem close_while_opening_cancels_open:
  assumes "io_state inst = IO_STATE_OPENING"
    and "wsio_close (Some inst) cc cx = (rc, ws_io, acts)"
    and "create_context_result env = Some c"
    and "client_connect_result env = Some w"
  shows "rc = 0
       \<and> acts = (case on_io_open_complete inst of
                    None \<Rightarrow> []
                  | Some f \<Rightarrow>
                      [Open_Complete f (open_callback_context inst) IO_OPEN_CANCELLED])
                @ Lws_Context_Destroy (ws_context inst)
                # (case cc of None \<Rightarrow> [] | Some g \<Rightarrow> [Close_Complete g cx])
       \<and> ws_io = Some (inst \<lparr> io_state := IO_STATE_NOT_OPEN \<rparr>)
       \<and> (\<exists>inst' acts'. wsio_open env ws_io oc br er cx' = (0, Some inst', acts')
                        \<and> io_state inst' = IO_STATE_OPENING)"
proof -
  have "inst \<lparr> pending_io_list := pending_io_list inst, io_state := IO_STATE_NOT_OPEN \<rparr>
          = inst \<lparr> io_state := IO_STATE_NOT_OPEN \<rparr>"
    by simp
  with assms show ?thesis
    by (auto simp: wsio_close_def wsio_open_def indicate_open_complete_def
        split: option.splits)
qed

theorem close_while_opening_cancels_open_witness:
  "io_state (sample_in IO_STATE_OPENING []) = IO_STATE_OPENING
   \<and> wsio_close (Some (sample_in IO_STATE_OPENING [])) (Some 30) 5 =
       (0, Some (sample_in IO_STATE_NOT_OPEN []),
        [Open_Complete 10 99 IO_OPEN_CANCELLED, Lws_Context_Destroy (Some 1),
         Close_Complete 30 5])
   \<and> (\<exists>inst' acts'.
         wsio_open engine_ok (Some (sample_in IO_STATE_NOT_OPEN [])) (Some 10) (Some 11)
           (Some 12) 99 = (0, Some inst', acts')
         \<and> io_state inst' = IO_STATE_OPENING)"
proof -
  have s: "io_state (sample_in IO_STATE_OPENING []) = IO_STATE_OPENING" by simp
  have e: "create_context_result engine_ok = Some 1" "client_connect_result engine_ok = Some 2"
    by simp_all
  obtain rc ws_io acts where
    w: "wsio_close (Some (sample_in IO_STATE_OPENING [])) (Some 30) 5 = (rc, ws_io, acts)"
    by (cases "wsio_close (Some (sample_in IO_STATE_OPENING [])) (Some 30) 5")
  from close_while_opening_cancels_open [OF s w e, of "Some 10" "Some 11" "Some 12" 99] w
  show ?thesis by auto
qed

subsection \<open>C7: sends that are refused\<close>

text \<open>
  C7. \<open>wsio_send\<close> fails with a non-zero code and does nothing (no action at all, so no
  allocation, and the instance with its queue and state is returned as it was) when
  the handle is NULL, the buffer is NULL, the size is zero or the instance is not open.
\<close>

theorem wsio_send_rejects_without_effect:
  assumes "ws_io = None \<or> buffer = None \<or> size' = 0
           \<or> (\<exists>inst. ws_io = Some inst \<and> io_state inst \<noteq> IO_STATE_OPEN)"
  shows "\<exists>rc. rc \<noteq> 0 \<and> wsio_send env ws_io buffer size' cb ctx = (rc, ws_io, [])"
  using assms
  by (auto simp: wsio_send_def split: option.splits)

theorem wsio_send_rejects_without_effect_witness:
  "io_state (sample_in IO_STATE_OPENING []) \<noteq> IO_STATE_OPEN
   \<and> (\<exists>rc. rc \<noteq> 0 \<and>
         wsio_send (queue_ok 0) (Some (sample_in IO_STATE_OPENING [])) (Some [1, 2]) 2
           (Some 7) 9 = (rc, Some (sample_in IO_STATE_OPENING []), []))"
proof -
  have h: "Some (sample_in IO_STATE_OPENING []) = None \<or> Some [1, 2::byte] = None
           \<or> (2::nat) = 0
           \<or> (\<exists>inst. Some (sample_in IO_STATE_OPENING []) = Some inst
                  \<and> io_state inst \<noteq> IO_STATE_OPEN)"
    by simp
  from wsio_send_rejects_without_effect [OF h, of "queue_ok 0" "Some 7" 9]
  show ?thesis by simp
qed

subsection \<open>C8: construction fails without a leak\<close>

text \<open>
  C8. \<open>wsio_create\<close> returns NULL exactly when the configuration is NULL, or one of
  \<open>host\<close>, \<open>protocol_name\<close>, \<open>relative_path\<close> is NULL, or one of the allocations it asks
  for fails (the instance, the list, the three string copies, the protocol table, and
  the copy of \<open>trusted_ca\<close> when one is given); and whenever it returns NULL, every block
  it had allocated has been freed again, each once.
\<close>

theorem wsio_create_fails_without_leak:
  assumes "wsio_create alloc_ok cfg lg = (r, acts)"
  shows "(r = None \<longleftrightarrow>
            cfg = None
          \<or> (\<exists>c. cfg = Some c \<and>
                (cfg_host c = None \<or> cfg_protocol_name c = None \<or> cfg_relative_path c = None
                 \<or> \<not> alloc_ok Instance_Block \<or> \<not> alloc_ok List_Block
                 \<or> \<not> alloc_ok Host_Block \<or> \<not> alloc_ok Relative_Path_Block
                 \<or> \<not> alloc_ok Protocol_Name_Block \<or> \<not> alloc_ok Protocols_Block
                 \<or> (cfg_trusted_ca c \<noteq> None \<and> \<not> alloc_ok Trusted_Ca_Block))))
       \<and> (r = None \<longrightarrow> heap_after acts [] = Some [])"
  using assms
  by (cases cfg) (auto simp: wsio_create_def split: option.splits if_splits)

theorem wsio_create_fails_without_leak_witness:
  "wsio_create (\<lambda>b. b \<noteq> Protocols_Block) (Some sample_config) None =
     (None,
      [Amqpalloc_Malloc Instance_Block, List_Create, Amqpalloc_Malloc Host_Block,
       Amqpalloc_Malloc Relative_Path_Block, Amqpalloc_Malloc Protocol_Name_Block,
       Amqpalloc_Free Relative_Path_Block, Amqpalloc_Free Protocol_Name_Block,
       Amqpalloc_Free Host_Block, List_Destroy, Amqpalloc_Free Instance_Block])
   \<and> heap_after
       [Amqpalloc_Malloc Instance_Block, List_Create, Amqpalloc_Malloc Host_Block,
        Amqpalloc_Malloc Relative_Path_Block, Amqpalloc_Malloc Protocol_Name_Block,
        Amqpalloc_Free Relative_Path_Block, Amqpalloc_Free Protocol_Name_Block,
        Amqpalloc_Free Host_Block, List_Destroy, Amqpalloc_Free Instance_Block] []
     = Some []"
proof -
  have c: "wsio_create (\<lambda>b. b \<noteq> Protocols_Block) (Some sample_config) None =
     (None,
      [Amqpalloc_Malloc Instance_Block, List_Create, Amqpalloc_Malloc Host_Block,
       Amqpalloc_Malloc Relative_Path_Block, Amqpalloc_Malloc Protocol_Name_Block,
       Amqpalloc_Free Relative_Path_Block, Amqpalloc_Free Protocol_Name_Block,
       Amqpalloc_Free Host_Block, List_Destroy, Amqpalloc_Free Instance_Block])"
    by (simp add: wsio_create_def)
  from wsio_create_fails_without_leak [OF c] c show ?thesis by simp
qed

subsection \<open>C9: received bytes\<close>

text \<open>
  C9. The claim: for every bytes-received event \<open>on_ws_callback\<close> calls
  \<open>on_bytes_received\<close> exactly once with the payload, the length and the context given
  at the open. \<open>wsio_open\<close> stores the callback it is given without looking at it, and the
  receive case calls it without the NULL check that the calls of \<open>on_io_error\<close>,
  \<open>on_io_open_complete\<close> and \<open>on_send_complete\<close> have. In the run below the instance is
  opened with a NULL \<open>on_bytes_received\<close>; the open returns 0, the connection is
  established, and the bytes-received event that follows calls the NULL pointer: no
  callback is invoked and the run ends with a fault.
\<close>

theorem receive_with_null_callback_faults:
  "(case wsio_create (\<lambda>b. True) (Some sample_config) None of
      (None, a) \<Rightarrow> False
    | (Some inst0, a) \<Rightarrow>
        (case run inst0
           [Call_Open engine_ok (Some 10) None (Some 12) 99,
            Engine_Callback (write_gives 0) LWS_CALLBACK_CLIENT_ESTABLISHED [] 0] of
           (inst, h) \<Rightarrow>
             map (\<lambda>(c, rc, acts). rc) h = [0, 0] \<and>
             io_state inst = IO_STATE_OPEN \<and>
             on_bytes_received inst = None \<and>
             on_ws_callback (write_gives 0) inst LWS_CALLBACK_CLIENT_RECEIVE [1, 2, 3] 3 =
               Inl Null_Function_Call \<and>
             snd (run inst
                    [Engine_Callback (write_gives 0) LWS_CALLBACK_CLIENT_RECEIVE [1, 2, 3] 3])
               = []))"
  by code_simp


subsection \<open>C10: no pending write while the open is in progress\<close>

text \<open>
  C10. In every state that a created instance reaches by calls of the public functions
  and of \<open>on_ws_callback\<close>: if the state is \<open>IO_STATE_OPENING\<close>, the list of pending
  writes is empty; so \<open>wsio_close\<close>, which skips the cancel loop in that state, returns
  0 with no write left behind and no send completion to fire.
\<close>

theorem queue_empty_while_opening:
  assumes "wsio_create alloc_ok cfg lg = (Some inst0, a0)"
    and "run inst0 calls = (inst, h)"
    and "io_state inst = IO_STATE_OPENING"
  shows "pending_io_list inst = []
       \<and> (\<exists>acts. wsio_close (Some inst) cc cx
                    = (0, Some (inst \<lparr> io_state := IO_STATE_NOT_OPEN \<rparr>), acts)
                \<and> fired acts = [])"
proof -
  from wsio_create_fresh [OF assms(1)]
  have fresh: "io_state inst0 = IO_STATE_NOT_OPEN" "pending_io_list inst0 = []"
    by simp_all
  from run_quiet [OF assms(2)] fresh assms(3)
  have empty: "pending_io_list inst = []"
    by simp
  moreover have "inst \<lparr> pending_io_list := pending_io_list inst,
                        io_state := IO_STATE_NOT_OPEN \<rparr>
                 = inst \<lparr> io_state := IO_STATE_NOT_OPEN \<rparr>"
    by simp
  ultimately show ?thesis
    using assms(3)
    by (simp add: wsio_close_def fired_append fired_indicate_open_complete
        split: option.splits)
qed

theorem queue_empty_while_opening_witness:
  "wsio_create (\<lambda>b. True) (Some sample_config) None
     = (Some created_instance, snd (wsio_create (\<lambda>b. True) (Some sample_config) None))
   \<and> io_state (fst (run created_instance
        [Call_Open engine_ok (Some 10) (Some 11) (Some 12) 99, Call_Dowork]))
       = IO_STATE_OPENING
   \<and> pending_io_list (fst (run created_instance
        [Call_Open engine_ok (Some 10) (Some 11) (Some 12) 99, Call_Dowork])) = []"
proof -
  have c: "wsio_create (\<lambda>b. True) (Some sample_config) None
     = (Some created_instance, snd (wsio_create (\<lambda>b. True) (Some sample_config) None))"
    by code_simp
  have r: "run created_instance [Call_Open engine_ok (Some 10) (Some 11) (Some 12) 99, Call_Dowork]
     = (fst (run created_instance
               [Call_Open engine_ok (Some 10) (Some 11) (Some 12) 99, Call_Dowork]),
        snd (run created_instance
               [Call_Open engine_ok (Some 10) (Some 11) (Some 12) 99, Call_Dowork]))"
    by simp
  have s: "io_state (fst (run created_instance
        [Call_Open engine_ok (Some 10) (Some 11) (Some 12) 99, Call_Dowork]))
       = IO_STATE_OPENING"
    by code_simp
  from queue_empty_while_opening [OF c r s] c s show ?thesis
    by simp
qed

end
